theory Spec2Isabelle
  imports Complex_Main "HOL-Library.Word"
begin

section \<open>Python values used by \<open>qr_code_app.py\<close>\<close>

text \<open>
  The module \<open>qr_code_app.py\<close> has two core functions, \<open>hex_to_rgb\<close> and
  \<open>create_qr_image\<close>. Python integers are modelled by \<open>int\<close>, and by \<open>nat\<close> where they
  are sizes and counts (the module size, the border and the grid size are not negative).
  Python floats are modelled by \<open>real\<close>, that is with exact arithmetic: the products with
  \<open>0.75\<close>, \<open>0.2\<close> and \<open>1.2\<close> truncate to the same integers in both, while distances,
  ratios and aspect ratios are idealised. The 8-bit channels of an image buffer are
  \<open>8 word\<close>. An exception is the \<open>Inl\<close> branch of a sum.
\<close>

datatype py_error = ValueError | ZeroDivisionError

text \<open>\<open>int(x)\<close> on a float truncates towards zero.\<close>

definition py_int :: "real \<Rightarrow> int" where
  "py_int x = (if 0 \<le> x then \<lfloor>x\<rfloor> else \<lceil>x\<rceil>)"

section \<open>\<open>hex_to_rgb\<close>\<close>

text \<open>
  \<open>int(s, 16)\<close>: surrounding whitespace is stripped, one sign and one \<open>0x\<close> prefix are
  optional, and single underscores may separate digits. A string is a list of code points
  below 256.
\<close>

definition hex_digit_val :: "char \<Rightarrow> nat option" where
  "hex_digit_val c =
     (let n = (of_char c :: nat) in
      if 48 \<le> n \<and> n \<le> 57 then Some (n - 48)
      else if 97 \<le> n \<and> n \<le> 102 then Some (n - 87)
      else if 65 \<le> n \<and> n \<le> 70 then Some (n - 55)
      else None)"

definition is_space :: "char \<Rightarrow> bool" where
  "is_space c =
     (let n = (of_char c :: nat) in
      (9 \<le> n \<and> n \<le> 13) \<or> (28 \<le> n \<and> n \<le> 32) \<or> n = 133 \<or> n = 160)"

definition strip :: "string \<Rightarrow> string" where
  "strip s = rev (dropWhile is_space (rev (dropWhile is_space s)))"

fun digits16 :: "int \<Rightarrow> string \<Rightarrow> int option" where
  "digits16 acc [] = Some acc"
| "digits16 acc [c] =
     (case hex_digit_val c of None \<Rightarrow> None | Some v \<Rightarrow> Some (16 * acc + int v))"
| "digits16 acc (c # d # ds) =
     (if c = CHR ''_'' then
        (case hex_digit_val d of None \<Rightarrow> None
         | Some v \<Rightarrow> digits16 (16 * acc + int v) ds)
      else
        (case hex_digit_val c of None \<Rightarrow> None
         | Some v \<Rightarrow> digits16 (16 * acc + int v) (d # ds)))"

definition py_int16 :: "string \<Rightarrow> int option" where
  "py_int16 s =
     (let t = strip s;
          neg = (t \<noteq> [] \<and> hd t = CHR ''-'');
          u = (if t \<noteq> [] \<and> (hd t = CHR ''+'' \<or> hd t = CHR ''-'') then tl t else t);
          v = (if 2 \<le> length u \<and> u ! 0 = CHR ''0'' \<and> (u ! 1 = CHR ''x'' \<or> u ! 1 = CHR ''X'')
               then (let w = drop 2 u in if w \<noteq> [] \<and> hd w = CHR ''_'' then tl w else w)
               else u)
      in case v of
           [] \<Rightarrow> None
         | c # cs \<Rightarrow>
             (case hex_digit_val c of
                None \<Rightarrow> None
              | Some d \<Rightarrow> map_option (\<lambda>n. if neg then - n else n) (digits16 (int d) cs)))"

text \<open>\<open>s.lstrip('#')\<close> removes every leading \<open>#\<close>; \<open>s[i:i+2]\<close> is a slice.\<close>

definition lstrip :: "char \<Rightarrow> string \<Rightarrow> string" where
  "lstrip c s = dropWhile (\<lambda>d. d = c) s"

definition slice2 :: "string \<Rightarrow> nat \<Rightarrow> string" where
  "slice2 s i = take 2 (drop i s)"

definition hex_to_rgb :: "string \<Rightarrow> py_error + (int \<times> int \<times> int)" where
  "hex_to_rgb hex_color =
     (let h = lstrip (CHR ''#'') hex_color in
      case py_int16 (slice2 h 0) of
        None \<Rightarrow> Inl ValueError
      | Some r \<Rightarrow>
          (case py_int16 (slice2 h 2) of
             None \<Rightarrow> Inl ValueError
           | Some g \<Rightarrow>
               (case py_int16 (slice2 h 4) of
                  None \<Rightarrow> Inl ValueError
                | Some b \<Rightarrow> Inr (r, g, b))))"







section \<open>Images of the imaging library\<close>

text \<open>
  A colour argument is a tuple of Python integers. A pixel of an image buffer has four
  8-bit channels; for modes \<open>L\<close> and \<open>RGB\<close> the unused channels are not observable.
  The canvas is \<open>RGB\<close> or \<open>RGBA\<close>; a logo may have any of the three modes modelled.
  Pixel coordinates are integers, \<open>(0, 0)\<close> the top-left corner; only coordinates inside
  the image carry meaning. A single-band image (mode \<open>L\<close>) used as a paste mask or as
  an alpha band is a \<open>gray\<close>.
\<close>

type_synonym rgb = "int \<times> int \<times> int"
type_synonym pixel = "8 word \<times> 8 word \<times> 8 word \<times> 8 word"
type_synonym box = "int \<times> int \<times> int \<times> int"

datatype mode = L | RGB | RGBA

record image =
  mode :: mode
  width :: nat
  height :: nat
  pix :: "int \<times> int \<Rightarrow> pixel"

record gray =
  gwidth :: nat
  gheight :: nat
  gval :: "int \<times> int \<Rightarrow> 8 word"

definition in_bounds :: "nat \<Rightarrow> nat \<Rightarrow> int \<times> int \<Rightarrow> bool" where
  "in_bounds w h p = (0 \<le> fst p \<and> fst p < int w \<and> 0 \<le> snd p \<and> snd p < int h)"

definition in_image :: "image \<Rightarrow> int \<times> int \<Rightarrow> bool" where
  "in_image img p = in_bounds (width img) (height img) p"

text \<open>A colour tuple becomes ink: each channel clipped to 0..255, alpha 255.\<close>

definition clip8 :: "int \<Rightarrow> 8 word" where
  "clip8 v = (if v < 0 then 0 else if 255 < v then 255 else word_of_int v)"

definition ink :: "rgb \<Rightarrow> pixel" where
  "ink c = (case c of (r, g, b) \<Rightarrow> (clip8 r, clip8 g, clip8 b, 255))"

definition valid_rgb :: "rgb \<Rightarrow> bool" where
  "valid_rgb c = (case c of (r, g, b) \<Rightarrow>
     0 \<le> r \<and> r \<le> 255 \<and> 0 \<le> g \<and> g \<le> 255 \<and> 0 \<le> b \<and> b \<le> 255)"

definition rgb_of :: "pixel \<Rightarrow> rgb" where
  "rgb_of px = (case px of (r, g, b, a) \<Rightarrow> (uint r, uint g, uint b))"

definition alpha_of :: "pixel \<Rightarrow> 8 word" where
  "alpha_of px = (case px of (r, g, b, a) \<Rightarrow> a)"

text \<open>
  \<open>Image.new(mode, size, color)\<close> and \<open>pixels[x, y] = color\<close>. Pixel access outside the
  image raises in Python; the loops of \<open>create_qr_image\<close> write inside the image only
  (lemma \<open>block_in_image\<close>), so the write is modelled without that branch.
\<close>

definition image_new :: "mode \<Rightarrow> nat \<times> nat \<Rightarrow> pixel \<Rightarrow> image" where
  "image_new md sz px = \<lparr>mode = md, width = fst sz, height = snd sz, pix = (\<lambda>p. px)\<rparr>"

definition putpixel :: "image \<Rightarrow> int \<times> int \<Rightarrow> pixel \<Rightarrow> image" where
  "putpixel img p px = img\<lparr>pix := (pix img)(p := px)\<rparr>"

definition gray_new :: "nat \<times> nat \<Rightarrow> 8 word \<Rightarrow> gray" where
  "gray_new sz v = \<lparr>gwidth = fst sz, gheight = snd sz, gval = (\<lambda>p. v)\<rparr>"

text \<open>
  Pasting blends each channel with the library's integer arithmetic:
  \<open>BLEND(mask, in1, in2) = DIV255(in1 * (255 - mask) + in2 * mask)\<close>, where
  \<open>DIV255(a)\<close> is \<open>tmp = a + 128; ((tmp >> 8) + tmp) >> 8\<close>.
\<close>

definition div255 :: "nat \<Rightarrow> nat" where
  "div255 a = (let tmp = a + 128 in (tmp div 256 + tmp) div 256)"

definition blend :: "8 word \<Rightarrow> 8 word \<Rightarrow> 8 word \<Rightarrow> 8 word" where
  "blend m in1 in2 = of_nat (div255 (unat in1 * (255 - unat m) + unat in2 * unat m))"

text \<open>The pixel of a source image as the destination's mode reads it.\<close>

definition src_px :: "image \<Rightarrow> int \<times> int \<Rightarrow> pixel" where
  "src_px src p =
     (case pix src p of (r, g, b, a) \<Rightarrow>
        (case mode src of
           L \<Rightarrow> (r, r, r, 255)
         | RGB \<Rightarrow> (r, g, b, 255)
         | RGBA \<Rightarrow> (r, g, b, a)))"

definition blend_px :: "mode \<Rightarrow> 8 word \<Rightarrow> pixel \<Rightarrow> pixel \<Rightarrow> pixel" where
  "blend_px md m old new =
     (case old of (r, g, b, a) \<Rightarrow>
        (case new of (r', g', b', a') \<Rightarrow>
           (blend m r r', blend m g g', blend m b b',
            if md = RGBA then blend m a a' else a)))"

definition store_px :: "mode \<Rightarrow> pixel \<Rightarrow> pixel \<Rightarrow> pixel" where
  "store_px md old new =
     (case old of (r, g, b, a) \<Rightarrow>
        (case new of (r', g', b', a') \<Rightarrow> (r', g', b', if md = RGBA then a' else a)))"

text \<open>
  \<open>img.paste(src, (ox, oy), mask)\<close>: the source rectangle is clipped to the destination;
  without a mask the pixels are copied, with a mask they are blended.
\<close>

definition in_rect :: "int \<times> int \<Rightarrow> nat \<times> nat \<Rightarrow> int \<times> int \<Rightarrow> bool" where
  "in_rect off sz p =
     (fst off \<le> fst p \<and> fst p < fst off + int (fst sz) \<and>
      snd off \<le> snd p \<and> snd p < snd off + int (snd sz))"

definition paste :: "image \<Rightarrow> image \<Rightarrow> int \<times> int \<Rightarrow> gray option \<Rightarrow> image" where
  "paste img src off mk =
     img\<lparr>pix := (\<lambda>p.
        if in_image img p \<and> in_rect off (width src, height src) p then
          (let q = (fst p - fst off, snd p - snd off) in
           case mk of
             None \<Rightarrow> store_px (mode img) (pix img p) (src_px src q)
           | Some g \<Rightarrow> blend_px (mode img) (gval g q) (pix img p) (src_px src q))
        else pix img p)\<rparr>"

definition alpha_band :: "image \<Rightarrow> gray" where
  "alpha_band img =
     \<lparr>gwidth = width img, gheight = height img, gval = (\<lambda>p. alpha_of (pix img p))\<rparr>"

text \<open>\<open>img.putalpha(band)\<close> on an \<open>RGBA\<close> image replaces the alpha channel.\<close>

definition putalpha :: "image \<Rightarrow> gray \<Rightarrow> image" where
  "putalpha img g =
     img\<lparr>mode := RGBA,
         pix := (\<lambda>p. case pix img p of (r, gr, b, a) \<Rightarrow> (r, gr, b, gval g p))\<rparr>"

subsection \<open>What the library decides\<close>

text \<open>
  Which pixels an ellipse or a rounded rectangle covers, and the pixels of a resampled
  image, are decided inside the imaging library. They are parameters of the model, as is
  whether the library rejects a bounding box whose second corner lies before the first
  (recent versions raise \<open>ValueError\<close>, older ones draw nothing). A rectangle covers
  its bounding box, both corners included.
\<close>

record pil =
  ellipse_fill :: "box \<Rightarrow> int \<times> int \<Rightarrow> bool"
  rounded_fill :: "box \<Rightarrow> int \<Rightarrow> int \<times> int \<Rightarrow> bool"
  lanczos :: "image \<Rightarrow> nat \<times> nat \<Rightarrow> int \<times> int \<Rightarrow> pixel"
  strict_boxes :: bool

definition rectangle_fill :: "box \<Rightarrow> int \<times> int \<Rightarrow> bool" where
  "rectangle_fill bx p =
     (case bx of (x0, y0, x1, y1) \<Rightarrow> x0 \<le> fst p \<and> fst p \<le> x1 \<and> y0 \<le> snd p \<and> snd p \<le> y1)"

definition inverted :: "box \<Rightarrow> bool" where
  "inverted bx = (case bx of (x0, y0, x1, y1) \<Rightarrow> x1 < x0 \<or> y1 < y0)"

definition draw_ellipse :: "pil \<Rightarrow> box \<Rightarrow> pixel \<Rightarrow> image \<Rightarrow> py_error + image" where
  "draw_ellipse lib bx c img =
     (if strict_boxes lib \<and> inverted bx then Inl ValueError
      else Inr (img\<lparr>pix := (\<lambda>p. if in_image img p \<and> ellipse_fill lib bx p then c
                                 else pix img p)\<rparr>))"

definition gray_draw :: "(int \<times> int \<Rightarrow> bool) \<Rightarrow> 8 word \<Rightarrow> gray \<Rightarrow> gray" where
  "gray_draw cover v g =
     g\<lparr>gval := (\<lambda>p. if in_bounds (gwidth g) (gheight g) p \<and> cover p then v else gval g p)\<rparr>"

section \<open>\<open>create_qr_image\<close>\<close>

record QrCode =
  get_size :: nat
  get_module :: "nat \<Rightarrow> nat \<Rightarrow> bool"

text \<open>The dictionary \<open>logo_options\<close>; a missing key is \<open>None\<close>.\<close>

record logo_options =
  opt_background_style :: "string option"
  opt_size :: "real option"
  opt_shape :: "string option"
  opt_border :: "bool option"

subsection \<open>1. The base image\<close>

definition fill_module :: "nat \<Rightarrow> nat \<Rightarrow> pixel \<Rightarrow> nat \<Rightarrow> nat \<Rightarrow> image \<Rightarrow> image" where
  "fill_module module_size border c x y img =
     fold (\<lambda>dy. fold (\<lambda>dx im.
             putpixel im (int ((x + border) * module_size + dx),
                          int ((y + border) * module_size + dy)) c)
           [0..<module_size])
       [0..<module_size] img"

definition draw_modules :: "QrCode \<Rightarrow> nat \<Rightarrow> nat \<Rightarrow> pixel \<Rightarrow> image \<Rightarrow> image" where
  "draw_modules qr module_size border c img =
     fold (\<lambda>y. fold (\<lambda>x im.
             if get_module qr x y then fill_module module_size border c x y im else im)
           [0..<get_size qr])
       [0..<get_size qr] img"

definition is_halo :: "logo_options \<Rightarrow> bool" where
  "is_halo opts = (opt_background_style opts = Some ''Gradient Halo'')"

definition base_image :: "QrCode \<Rightarrow> nat \<Rightarrow> nat \<Rightarrow> rgb \<Rightarrow> rgb \<Rightarrow> logo_options \<Rightarrow> image" where
  "base_image qr module_size border light_color dark_color opts =
     (let image_size = (get_size qr + border * 2) * module_size;
          img = (if is_halo opts
                 then image_new RGBA (image_size, image_size) (ink light_color)
                 else image_new RGB (image_size, image_size) (ink light_color))
      in draw_modules qr module_size border (ink dark_color) img)"

subsection \<open>2. The logo: thumbnail\<close>

text \<open>
  \<open>Image.thumbnail(size, resample)\<close> of the library versions that have
  \<open>Image.Resampling\<close>: it returns at once when the image fits, otherwise it keeps the
  aspect ratio by \<open>round_aspect\<close> and resizes the image object in place.
\<close>

definition round_aspect :: "real \<Rightarrow> (int \<Rightarrow> real) \<Rightarrow> int" where
  "round_aspect number key =
     max (if key \<lfloor>number\<rfloor> \<le> key \<lceil>number\<rceil> then \<lfloor>number\<rfloor> else \<lceil>number\<rceil>) 1"

definition thumbnail_size :: "nat \<times> nat \<Rightarrow> int \<times> int \<Rightarrow> py_error + (int \<times> int) option" where
  "thumbnail_size sz bound =
     (case sz of (w, h) \<Rightarrow> case bound of (x, y) \<Rightarrow>
        if int w \<le> x \<and> int h \<le> y then Inr None
        else if h = 0 then Inl ZeroDivisionError
        else
          (let aspect = real w / real h in
           if y = 0 then Inl ZeroDivisionError
           else if aspect \<le> real_of_int x / real_of_int y then
             Inr (Some (round_aspect (real_of_int y * aspect)
                          (\<lambda>n. \<bar>aspect - real_of_int n / real_of_int y\<bar>), y))
           else if aspect = 0 then Inl ZeroDivisionError
           else
             Inr (Some (x, round_aspect (real_of_int x / aspect)
                          (\<lambda>n. if n = 0 then 0 else \<bar>aspect - real_of_int x / real_of_int n\<bar>)))))"

definition thumbnail :: "pil \<Rightarrow> image \<Rightarrow> int \<times> int \<Rightarrow> py_error + image" where
  "thumbnail lib im bound =
     (case thumbnail_size (width im, height im) bound of
        Inl e \<Rightarrow> Inl e
      | Inr None \<Rightarrow> Inr im
      | Inr (Some (x, y)) \<Rightarrow>
          if x = int (width im) \<and> y = int (height im) then Inr im
          else if x \<le> 0 \<or> y \<le> 0 then Inl ValueError
          else Inr (im\<lparr>width := nat x, height := nat y,
                       pix := lanczos lib im (nat x, nat y)\<rparr>))"

definition logo_max_size :: "nat \<Rightarrow> logo_options \<Rightarrow> int" where
  "logo_max_size image_size opts =
     py_int (real image_size * (case opt_size opts of None \<Rightarrow> 0.25 | Some r \<Rightarrow> r))"

subsection \<open>2a. The background of the logo\<close>

definition uint8 :: "real \<Rightarrow> 8 word" where
  "uint8 x = word_of_int (py_int x)"

definition halo_alpha :: "nat \<Rightarrow> nat \<times> nat \<Rightarrow> nat \<Rightarrow> int \<times> int \<Rightarrow> 8 word" where
  "halo_alpha image_size logo_size module_size p =
     (let center_x = real image_size / 2;
          center_y = real image_size / 2;
          outer_radius = real (max (fst logo_size) (snd logo_size)) / 2 + real (module_size * 2);
          inner_radius = real (max (fst logo_size) (snd logo_size)) / 2;
          distance = sqrt ((real_of_int (fst p) - center_x)\<^sup>2 + (real_of_int (snd p) - center_y)\<^sup>2);
          a0 = (255 :: 8 word);
          a1 = (if inner_radius < distance \<and> distance < outer_radius
                then uint8 (255 * (distance - inner_radius) / (outer_radius - inner_radius))
                else a0)
      in if distance \<le> inner_radius then 0 else a1)"

definition halo_mask :: "nat \<Rightarrow> nat \<times> nat \<Rightarrow> nat \<Rightarrow> gray" where
  "halo_mask image_size logo_size module_size =
     \<lparr>gwidth = image_size, gheight = image_size,
      gval = halo_alpha image_size logo_size module_size\<rparr>"

definition grad_size :: "nat \<times> nat \<Rightarrow> nat" where
  "grad_size logo_size = nat (py_int (real (max (fst logo_size) (snd logo_size)) * 1.2))"

definition ring_channel :: "int \<Rightarrow> int \<Rightarrow> nat \<Rightarrow> nat \<Rightarrow> int" where
  "ring_channel l d g i =
     (let ratio = real i / real g
      in py_int (real_of_int l * ratio + real_of_int d * (1 - ratio)))"

definition ring_color :: "rgb \<Rightarrow> rgb \<Rightarrow> nat \<Rightarrow> nat \<Rightarrow> rgb" where
  "ring_color light_color dark_color g i =
     (case light_color of (lr, lg, lb) \<Rightarrow> case dark_color of (dr, dg, db) \<Rightarrow>
        (ring_channel lr dr g i, ring_channel lg dg g i, ring_channel lb db g i))"

definition ring_box :: "nat \<Rightarrow> nat \<Rightarrow> box" where
  "ring_box g i = (int i, int i, int g - int i - 1, int g - int i - 1)"

fun draw_rings :: "pil \<Rightarrow> rgb \<Rightarrow> rgb \<Rightarrow> nat \<Rightarrow> nat list \<Rightarrow> image \<Rightarrow> py_error + image" where
  "draw_rings lib light_color dark_color g [] im = Inr im"
| "draw_rings lib light_color dark_color g (i # rest) im =
     (case draw_ellipse lib (ring_box g i) (ink (ring_color light_color dark_color g i)) im of
        Inl e \<Rightarrow> Inl e
      | Inr im' \<Rightarrow> draw_rings lib light_color dark_color g rest im')"

definition gradient_image :: "pil \<Rightarrow> rgb \<Rightarrow> rgb \<Rightarrow> nat \<Rightarrow> py_error + image" where
  "gradient_image lib light_color dark_color g =
     draw_rings lib light_color dark_color g [0..<g] (image_new RGB (g, g) (0, 0, 0, 255))"

definition logo_background ::
  "pil \<Rightarrow> logo_options \<Rightarrow> nat \<Rightarrow> nat \<Rightarrow> rgb \<Rightarrow> rgb \<Rightarrow> nat \<times> nat \<Rightarrow> image
     \<Rightarrow> py_error + image" where
  "logo_background lib opts image_size module_size light_color dark_color logo_size img =
     (if opt_background_style opts = Some ''Gradient Halo'' then
        Inr (putalpha img (halo_mask image_size logo_size module_size))
      else if opt_background_style opts = Some ''Radial Gradient'' then
        (let g = grad_size logo_size in
         case gradient_image lib light_color dark_color g of
           Inl e \<Rightarrow> Inl e
         | Inr grad_img \<Rightarrow>
             Inr (paste img grad_img
                    ((int image_size - int g) div 2, (int image_size - int g) div 2) None))
      else Inr img)"

subsection \<open>2b. The shape of the logo and its border\<close>

definition corner_radius :: "nat \<times> nat \<Rightarrow> int" where
  "corner_radius sz = py_int (real (min (fst sz) (snd sz)) * 0.2)"

definition logo_shape_of :: "logo_options \<Rightarrow> string" where
  "logo_shape_of opts = (case opt_shape opts of None \<Rightarrow> ''Square'' | Some s \<Rightarrow> s)"

definition logo_mask :: "pil \<Rightarrow> string \<Rightarrow> nat \<times> nat \<Rightarrow> gray" where
  "logo_mask lib logo_shape logo_size =
     (let m = gray_new logo_size 0;
          bx = (0, 0, int (fst logo_size), int (snd logo_size))
      in if logo_shape = ''Circle'' then gray_draw (ellipse_fill lib bx) 255 m
         else if logo_shape = ''Rounded Rectangle'' then
           gray_draw (rounded_fill lib bx (corner_radius logo_size)) 255 m
         else gray_draw (rectangle_fill bx) 255 m)"

definition border_width :: "nat \<Rightarrow> int" where
  "border_width module_size = max 1 (py_int (real module_size * 0.75))"

definition border_frame_size :: "nat \<Rightarrow> nat \<times> nat \<Rightarrow> nat \<times> nat" where
  "border_frame_size module_size logo_size =
     (nat (int (fst logo_size) + border_width module_size * 2),
      nat (int (snd logo_size) + border_width module_size * 2))"

definition border_mask :: "pil \<Rightarrow> string \<Rightarrow> nat \<times> nat \<Rightarrow> gray" where
  "border_mask lib logo_shape frame_size =
     (let m = gray_new frame_size 0;
          bx = (0, 0, int (fst frame_size), int (snd frame_size))
      in if logo_shape = ''Circle'' then gray_draw (ellipse_fill lib bx) 255 m
         else if logo_shape = ''Rounded Rectangle'' then
           gray_draw (rounded_fill lib bx (py_int (real (min (fst frame_size) (snd frame_size)) * 0.2))) 255 m
         else gray_draw (rectangle_fill bx) 255 m)"

definition has_border :: "logo_options \<Rightarrow> bool" where
  "has_border opts = (case opt_border opts of None \<Rightarrow> False | Some b \<Rightarrow> b)"

definition logo_pos :: "nat \<Rightarrow> nat \<times> nat \<Rightarrow> int \<times> int" where
  "logo_pos image_size logo_size =
     ((int image_size - int (fst logo_size)) div 2, (int image_size - int (snd logo_size)) div 2)"

definition logo_border ::
  "pil \<Rightarrow> logo_options \<Rightarrow> nat \<Rightarrow> nat \<Rightarrow> rgb \<Rightarrow> nat \<times> nat \<Rightarrow> image \<Rightarrow> image" where
  "logo_border lib opts image_size module_size dark_color logo_size img =
     (if has_border opts then
        (let bw = border_width module_size;
             frame_size = border_frame_size module_size logo_size;
             bm = border_mask lib (logo_shape_of opts) frame_size;
             frame = image_new (if mode img = RGBA then RGBA else RGB) frame_size (ink dark_color);
             pos = logo_pos image_size logo_size
         in paste img frame (fst pos - bw, snd pos - bw) (Some bm))
      else img)"

subsection \<open>2c. Pasting the logo, and the conversion back to RGB\<close>

definition logo_paste :: "pil \<Rightarrow> logo_options \<Rightarrow> nat \<Rightarrow> image \<Rightarrow> image \<Rightarrow> image" where
  "logo_paste lib opts image_size logo img =
     paste img logo (logo_pos image_size (width logo, height logo))
       (Some (logo_mask lib (logo_shape_of opts) (width logo, height logo)))"

definition flatten :: "rgb \<Rightarrow> image \<Rightarrow> image" where
  "flatten light_color img =
     (if mode img = RGBA then
        paste (image_new RGB (width img, height img) (ink light_color)) img (0, 0)
          (Some (alpha_band img))
      else img)"

text \<open>
  \<open>render_canvas\<close> is the body of \<open>create_qr_image\<close> up to the final conversion. It
  returns the canvas, or the exception raised, together with the caller's logo object as
  the call leaves it: \<open>thumbnail\<close> resizes that object in place.
\<close>

definition render_canvas ::
  "pil \<Rightarrow> QrCode \<Rightarrow> nat \<Rightarrow> nat \<Rightarrow> rgb \<Rightarrow> rgb \<Rightarrow> image option \<Rightarrow> logo_options
     \<Rightarrow> (py_error + image) \<times> image option" where
  "render_canvas lib qr module_size border light_color dark_color logo_image opts =
     (let image_size = (get_size qr + border * 2) * module_size;
          img = base_image qr module_size border light_color dark_color opts
      in case logo_image of
           None \<Rightarrow> (Inr img, None)
         | Some logo0 \<Rightarrow>
             (let logo_max = logo_max_size image_size opts in
              case thumbnail lib logo0 (logo_max, logo_max) of
                Inl e \<Rightarrow> (Inl e, Some logo0)
              | Inr logo \<Rightarrow>
                  (case logo_background lib opts image_size module_size light_color dark_color
                          (width logo, height logo) img of
                     Inl e \<Rightarrow> (Inl e, Some logo)
                   | Inr img2 \<Rightarrow>
                       (Inr (logo_paste lib opts image_size logo
                               (logo_border lib opts image_size module_size dark_color
                                  (width logo, height logo) img2)),
                        Some logo))))"

definition create_qr_image ::
  "pil \<Rightarrow> QrCode \<Rightarrow> nat \<Rightarrow> nat \<Rightarrow> rgb \<Rightarrow> rgb \<Rightarrow> image option \<Rightarrow> logo_options
     \<Rightarrow> (py_error + image) \<times> image option" where
  "create_qr_image lib qr module_size border light_color dark_color logo_image opts =
     (case render_canvas lib qr module_size border light_color dark_color logo_image opts of
        (Inl e, logo') \<Rightarrow> (Inl e, logo')
      | (Inr img, logo') \<Rightarrow> (Inr (flatten light_color img), logo'))"

subsection \<open>Regions of the base image\<close>

text \<open>
  The block of pixels of module \<open>(x, y)\<close>, the pixels of all dark modules, and the quiet
  zone of \<open>border\<close> modules around the grid.
\<close>

definition block :: "nat \<Rightarrow> nat \<Rightarrow> nat \<Rightarrow> nat \<Rightarrow> (int \<times> int) set" where
  "block m b x y =
     {p. int ((x + b) * m) \<le> fst p \<and> fst p < int ((x + b) * m + m) \<and>
         int ((y + b) * m) \<le> snd p \<and> snd p < int ((y + b) * m + m)}"

definition dark_region :: "QrCode \<Rightarrow> nat \<Rightarrow> nat \<Rightarrow> (int \<times> int) set" where
  "dark_region qr m b =
     {p. \<exists>x<get_size qr. \<exists>y<get_size qr. get_module qr x y \<and> p \<in> block m b x y}"

definition quiet_zone :: "QrCode \<Rightarrow> nat \<Rightarrow> nat \<Rightarrow> (int \<times> int) set" where
  "quiet_zone qr m b =
     {p. fst p < int (b * m) \<or> int ((get_size qr + b) * m) \<le> fst p \<or>
         snd p < int (b * m) \<or> int ((get_size qr + b) * m) \<le> snd p}"

subsection \<open>Distances and radii of the halo\<close>

text \<open>
  The distance of a pixel from the centre \<open>(image_size / 2, image_size / 2)\<close>, and the
  two radii, as the halo step computes them.
\<close>

definition center_distance :: "nat \<Rightarrow> int \<times> int \<Rightarrow> real" where
  "center_distance image_size p =
     sqrt ((real_of_int (fst p) - real image_size / 2)\<^sup>2
           + (real_of_int (snd p) - real image_size / 2)\<^sup>2)"

definition inner_radius :: "nat \<times> nat \<Rightarrow> real" where
  "inner_radius logo_size = real (max (fst logo_size) (snd logo_size)) / 2"

definition outer_radius :: "nat \<times> nat \<Rightarrow> nat \<Rightarrow> real" where
  "outer_radius logo_size module_size = inner_radius logo_size + 2 * real module_size"

subsection \<open>The rings of the radial gradient\<close>




subsection \<open>The place of the logo on the canvas\<close>



subsection \<open>Source-over compositing\<close>

text \<open>
  Standard source-over blending of a source channel over an opaque destination channel
  with an 8-bit alpha, rounded to the nearest integer; and the composite of a pixel over
  an opaque background colour.
\<close>

definition source_over :: "nat \<Rightarrow> nat \<Rightarrow> nat \<Rightarrow> nat" where
  "source_over alpha dst src = (dst * (255 - alpha) + src * alpha + 127) div 255"

definition composite_over :: "rgb \<Rightarrow> pixel \<Rightarrow> rgb" where
  "composite_over background px =
     (case background of (br, bg, bb) \<Rightarrow> case px of (r, g, b, a) \<Rightarrow>
        (int (source_over (unat a) (unat (clip8 br)) (unat r)),
         int (source_over (unat a) (unat (clip8 bg)) (unat g)),
         int (source_over (unat a) (unat (clip8 bb)) (unat b))))"

subsection \<open>Example inputs\<close>

text \<open>
  One instance of the library parameters (an ellipse sampled at pixel centres, a rounded
  rectangle with its four corner pixels cut, nearest-neighbour resampling, inverted boxes
  rejected), a 21-module grid, a 20 by 10 logo and an options dictionary; they serve to
  run the model on concrete calls.
\<close>

definition sample_pil :: pil where
  "sample_pil =
     \<lparr>ellipse_fill = (\<lambda>bx p. case bx of (x0, y0, x1, y1) \<Rightarrow>
          rectangle_fill bx p \<and>
          (2 * fst p - x0 - x1)\<^sup>2 * (y1 - y0 + 1)\<^sup>2 + (2 * snd p - y0 - y1)\<^sup>2 * (x1 - x0 + 1)\<^sup>2
            \<le> (x1 - x0 + 1)\<^sup>2 * (y1 - y0 + 1)\<^sup>2),
      rounded_fill = (\<lambda>bx r p. case bx of (x0, y0, x1, y1) \<Rightarrow>
          rectangle_fill bx p \<and>
          (r = 0 \<or> \<not> ((fst p = x0 \<or> fst p = x1) \<and> (snd p = y0 \<or> snd p = y1)))),
      lanczos = (\<lambda>im sz p.
          pix im (fst p * int (width im) div int (fst sz), snd p * int (height im) div int (snd sz))),
      strict_boxes = True\<rparr>"


definition sample_qr :: QrCode where
  "sample_qr = \<lparr>get_size = 21, get_module = (\<lambda>x y. even (x + y))\<rparr>"

definition sample_logo :: image where
  "sample_logo = image_new RGB (20, 10) (200, 30, 30, 255)"

definition sample_opts :: "string \<Rightarrow> string \<Rightarrow> bool \<Rightarrow> logo_options" where
  "sample_opts style shape b =
     \<lparr>opt_background_style = Some style, opt_size = Some 0.25, opt_shape = Some shape,
      opt_border = Some b\<rparr>"

section \<open>Properties of \<open>hex_to_rgb\<close>\<close>







lemma hex_to_rgb_hash: "hex_to_rgb (CHR ''#'' # s) = hex_to_rgb s"
  by (simp add: hex_to_rgb_def lstrip_def)












section \<open>Blending arithmetic\<close>

lemma div255_round:
  assumes "a \<le> 65025"
  shows "div255 a = (a + 127) div 255"
proof -
  define q where "q = (a + 128) div 256"
  define r where "r = (a + 128) mod 256"
  have t: "a + 128 = 256 * q + r" and r: "r < 256"
    by (simp_all add: q_def r_def)
  from t assms have q: "q \<le> 254" by arith
  from t have qr: "1 \<le> q + r" by arith
  have "div255 a = (256 * q + (q + r)) div 256"
    using r by (simp add: div255_def Let_def q_def[symmetric] t)
  also have "\<dots> = q + (q + r) div 256"
    by simp
  finally have lhs: "div255 a = q + (q + r) div 256" .
  from t qr have "a + 127 = 255 * q + (q + r - 1)" by arith
  then have "(a + 127) div 255 = (255 * q + (q + r - 1)) div 255" by simp
  also have "\<dots> = q + (q + r - 1) div 255"
    by simp
  finally have rhs: "(a + 127) div 255 = q + (q + r - 1) div 255" .
  have "(q + r) div 256 = (q + r - 1) div 255"
  proof (cases "q + r < 256")
    case True
    then show ?thesis using qr by simp
  next
    case False
    with q r have "256 \<le> q + r" "q + r < 510" by arith+
    then have "(q + r) div 256 = 1" "(q + r - 1) div 255 = 1"
      by (simp_all add: div_nat_eqI)
    then show ?thesis by simp
  qed
  with lhs rhs show ?thesis by simp
qed

lemma unat8_less: "unat (w :: 8 word) < 256"
proof -
  have "unat w < 2 ^ LENGTH(8)" by (rule unsigned_less)
  then show ?thesis by simp
qed

lemma div255_255: "v < 256 \<Longrightarrow> div255 (v * 255) = v"
  using div255_round[of "v * 255"] by simp

lemma blend_full [simp]: "blend 255 a b = b"
proof -
  have "unat b < 256" by (rule unat8_less)
  then show ?thesis by (simp add: blend_def div255_255)
qed

lemma blend_none [simp]: "blend 0 a b = a"
proof -
  have "unat a < 256" by (rule unat8_less)
  then show ?thesis by (simp add: blend_def div255_255)
qed

lemma blend_round:
  "unat (blend m a b) = (unat a * (255 - unat m) + unat b * unat m + 127) div 255"
proof -
  have a: "unat a \<le> 255" and b: "unat b \<le> 255" and m: "unat m \<le> 255"
    using unat8_less[of a] unat8_less[of b] unat8_less[of m] by simp_all
  have "unat a * (255 - unat m) \<le> 255 * (255 - unat m)" using a by (rule mult_le_mono1)
  moreover have "unat b * unat m \<le> 255 * unat m" using b by (rule mult_le_mono1)
  ultimately have "unat a * (255 - unat m) + unat b * unat m
      \<le> 255 * (255 - unat m) + 255 * unat m"
    by (rule add_mono)
  also have "\<dots> = 255 * ((255 - unat m) + unat m)"
    by (simp only: add_mult_distrib2)
  also have "\<dots> = 65025" using m by simp
  finally have s: "unat a * (255 - unat m) + unat b * unat m \<le> 65025" .
  then have "(unat a * (255 - unat m) + unat b * unat m + 127) div 255 \<le> 255"
    by simp
  then show ?thesis
    using s by (simp add: blend_def div255_round unat_of_nat)
qed

section \<open>Size and mode of the canvas\<close>

lemma fold_keeps: "(\<And>x a. g (f x a) = g a) \<Longrightarrow> g (fold f xs a) = g a"
  by (induction xs arbitrary: a) simp_all

lemma image_new_simps [simp]:
  "mode (image_new md sz px) = md" "width (image_new md sz px) = fst sz"
  "height (image_new md sz px) = snd sz" "pix (image_new md sz px) p = px"
  by (simp_all add: image_new_def)

lemma putpixel_simps [simp]:
  "mode (putpixel img p c) = mode img" "width (putpixel img p c) = width img"
  "height (putpixel img p c) = height img" "pix (putpixel img p c) = (pix img)(p := c)"
  by (simp_all add: putpixel_def)

lemma paste_simps [simp]:
  "mode (paste img src off mk) = mode img" "width (paste img src off mk) = width img"
  "height (paste img src off mk) = height img"
  by (simp_all add: paste_def)

lemma putalpha_simps [simp]:
  "mode (putalpha img g) = RGBA" "width (putalpha img g) = width img"
  "height (putalpha img g) = height img"
  by (simp_all add: putalpha_def)

lemma in_image_paste [simp]: "in_image (paste img src off mk) p = in_image img p"
  by (simp add: in_image_def)

lemma fill_module_simps [simp]:
  "mode (fill_module m b c x y img) = mode img"
  "width (fill_module m b c x y img) = width img"
  "height (fill_module m b c x y img) = height img"
  unfolding fill_module_def
  by (rule fold_keeps, rule fold_keeps, simp)+

lemma draw_modules_simps [simp]:
  "mode (draw_modules qr m b c img) = mode img"
  "width (draw_modules qr m b c img) = width img"
  "height (draw_modules qr m b c img) = height img"
  unfolding draw_modules_def
  by (rule fold_keeps, rule fold_keeps, simp)+

lemma base_image_simps [simp]:
  "mode (base_image qr m b light dark opts) = (if is_halo opts then RGBA else RGB)"
  "width (base_image qr m b light dark opts) = (get_size qr + b * 2) * m"
  "height (base_image qr m b light dark opts) = (get_size qr + b * 2) * m"
  by (simp_all add: base_image_def Let_def)

lemma logo_background_fields:
  assumes "logo_background lib opts isz m light dark lsz img = Inr img2"
  shows "width img2 = width img" and "height img2 = height img"
    and "mode img2 = (if is_halo opts then RGBA else mode img)"
  using assms
  by (auto simp: logo_background_def is_halo_def Let_def split: if_splits sum.splits)

lemma logo_border_simps [simp]:
  "mode (logo_border lib opts isz m dark lsz img) = mode img"
  "width (logo_border lib opts isz m dark lsz img) = width img"
  "height (logo_border lib opts isz m dark lsz img) = height img"
  by (simp_all add: logo_border_def Let_def)

lemma logo_paste_simps [simp]:
  "mode (logo_paste lib opts isz logo img) = mode img"
  "width (logo_paste lib opts isz logo img) = width img"
  "height (logo_paste lib opts isz logo img) = height img"
  by (simp_all add: logo_paste_def)

lemma render_canvas_fields:
  assumes "fst (render_canvas lib qr m b light dark logo opts) = Inr canvas"
  shows "width canvas = (get_size qr + b * 2) * m"
    and "height canvas = (get_size qr + b * 2) * m"
    and "mode canvas = (if is_halo opts then RGBA else RGB)"
  using assms
  by (auto simp: render_canvas_def Let_def logo_background_fields
      split: option.splits sum.splits)

lemma flatten_simps [simp]:
  "width (flatten light img) = width img" "height (flatten light img) = height img"
  by (simp_all add: flatten_def)

lemma create_qr_image_canvas:
  assumes "fst (create_qr_image lib qr m b light dark logo opts) = Inr img"
  obtains canvas where "fst (render_canvas lib qr m b light dark logo opts) = Inr canvas"
    and "img = flatten light canvas"
  using assms
  by (auto simp: create_qr_image_def split: prod.splits sum.splits)


section \<open>The conversion back to RGB\<close>

lemma uint_blend: "uint (blend m a b) = int (source_over (unat m) (unat a) (unat b))"
  unfolding source_over_def blend_round[symmetric] by (rule uint_nat)

lemma rgb_of_blend_px:
  "rgb_of (blend_px md a (ink bg) (r, g, b, a')) = composite_over bg (r, g, b, a)"
proof -
  obtain br bg' bb where bg: "bg = (br, bg', bb)" by (cases bg) auto
  show ?thesis
    unfolding bg ink_def blend_px_def rgb_of_def composite_over_def
    by (simp add: uint_blend)
qed

lemma flatten_pix:
  assumes "mode canvas = RGBA" and "in_image canvas p"
  shows "rgb_of (pix (flatten light canvas) p) = composite_over light (pix canvas p)"
proof -
  obtain r g b a where px: "pix canvas p = (r, g, b, a)" by (cases "pix canvas p") auto
  have "in_rect (0, 0) (width canvas, height canvas) p"
    using assms(2) by (simp add: in_rect_def in_image_def in_bounds_def)
  then have "pix (flatten light canvas) p =
      blend_px RGB a (ink light) (r, g, b, a)"
    using assms by (simp add: flatten_def paste_def in_image_def src_px_def px alpha_band_def
        alpha_of_def Let_def)
  then show ?thesis by (simp add: rgb_of_blend_px px)
qed


section \<open>The base image\<close>

text \<open>Painting: a step that writes one colour on a set of pixels and nothing else.\<close>

lemma fold_paints:
  assumes "\<And>i a. i \<in> set xs \<Longrightarrow> pix (f i a) = (\<lambda>p. if p \<in> S i then c else pix a p)"
  shows "pix (fold f xs a) = (\<lambda>p. if p \<in> (\<Union>i\<in>set xs. S i) then c else pix a p)"
  using assms
proof (induction xs arbitrary: a)
  case Nil
  then show ?case by simp
next
  case (Cons x xs)
  have "pix (fold f xs (f x a)) =
      (\<lambda>p. if p \<in> (\<Union>i\<in>set xs. S i) then c else pix (f x a) p)"
    by (rule Cons.IH) (simp add: Cons.prems)
  moreover have "pix (f x a) = (\<lambda>p. if p \<in> S x then c else pix a p)"
    by (rule Cons.prems) simp
  ultimately show ?case by (auto simp: fun_eq_iff)
qed

lemma row_paints:
  "pix (fold (\<lambda>dx im. putpixel im (int (X + dx), Y) c) [0..<m] a) =
   (\<lambda>p. if p \<in> {p. int X \<le> fst p \<and> fst p < int (X + m) \<and> snd p = Y} then c else pix a p)"
proof -
  have "pix (fold (\<lambda>dx im. putpixel im (int (X + dx), Y) c) [0..<m] a) =
      (\<lambda>p. if p \<in> (\<Union>dx\<in>set [0..<m]. {(int (X + dx), Y)}) then c else pix a p)"
    by (rule fold_paints) (auto simp: fun_eq_iff)
  moreover have "(\<Union>dx\<in>set [0..<m]. {(int (X + dx), Y)}) =
      {p. int X \<le> fst p \<and> fst p < int (X + m) \<and> snd p = Y}"
  proof (intro set_eqI iffI)
    fix p assume "p \<in> {p. int X \<le> fst p \<and> fst p < int (X + m) \<and> snd p = Y}"
    then have p: "int X \<le> fst p" "fst p < int (X + m)" "snd p = Y" by simp_all
    define dx where "dx = nat (fst p - int X)"
    have "dx < m" "p = (int (X + dx), Y)"
      using p by (auto simp: dx_def prod_eq_iff)
    then show "p \<in> (\<Union>dx\<in>set [0..<m]. {(int (X + dx), Y)})" by auto
  qed auto
  ultimately show ?thesis by (simp only:)
qed

lemma fill_module_pix:
  "pix (fill_module m b c x y a) = (\<lambda>p. if p \<in> block m b x y then c else pix a p)"
proof -
  let ?row = "\<lambda>dy. {p. int ((x + b) * m) \<le> fst p \<and> fst p < int ((x + b) * m + m)
                      \<and> snd p = int ((y + b) * m + dy)}"
  have "pix (fill_module m b c x y a) =
      (\<lambda>p. if p \<in> (\<Union>dy\<in>set [0..<m]. ?row dy) then c else pix a p)"
    unfolding fill_module_def by (rule fold_paints) (rule row_paints)
  moreover have "(\<Union>dy\<in>set [0..<m]. ?row dy) = block m b x y"
  proof (intro set_eqI iffI)
    fix p assume "p \<in> block m b x y"
    then have p: "int ((x + b) * m) \<le> fst p" "fst p < int ((x + b) * m + m)"
      "int ((y + b) * m) \<le> snd p" "snd p < int ((y + b) * m + m)"
      by (simp_all add: block_def)
    define dy where "dy = nat (snd p - int ((y + b) * m))"
    have "dy < m" "snd p = int ((y + b) * m + dy)"
      using p by (auto simp: dy_def)
    with p show "p \<in> (\<Union>dy\<in>set [0..<m]. ?row dy)" by auto
  qed (auto simp: block_def)
  ultimately show ?thesis by (simp only:)
qed

lemma draw_modules_pix:
  "pix (draw_modules qr m b c a) = (\<lambda>p. if p \<in> dark_region qr m b then c else pix a p)"
proof -
  let ?cell = "\<lambda>y x. if get_module qr x y then block m b x y else {}"
  let ?line = "\<lambda>y. \<Union>x\<in>set [0..<get_size qr]. ?cell y x"
  have line: "pix (fold (\<lambda>x im. if get_module qr x y then fill_module m b c x y im else im)
            [0..<get_size qr] a') =
      (\<lambda>p. if p \<in> ?line y then c else pix a' p)" for y a'
    by (rule fold_paints) (simp add: fill_module_pix)
  have "pix (draw_modules qr m b c a) =
      (\<lambda>p. if p \<in> (\<Union>y\<in>set [0..<get_size qr]. ?line y) then c else pix a p)"
    unfolding draw_modules_def by (rule fold_paints) (rule line)
  moreover have "(\<Union>y\<in>set [0..<get_size qr]. ?line y) = dark_region qr m b"
  proof (intro set_eqI iffI)
    fix p assume "p \<in> (\<Union>y\<in>set [0..<get_size qr]. ?line y)"
    then obtain y x where "y < get_size qr" "x < get_size qr" "p \<in> ?cell y x"
      by auto
    then have "get_module qr x y \<and> p \<in> block m b x y"
      by (simp split: if_splits)
    with \<open>x < get_size qr\<close> \<open>y < get_size qr\<close> show "p \<in> dark_region qr m b"
      unfolding dark_region_def by blast
  next
    fix p assume "p \<in> dark_region qr m b"
    then obtain x y where xy: "x < get_size qr" "y < get_size qr" "get_module qr x y"
      "p \<in> block m b x y"
      unfolding dark_region_def by blast
    show "p \<in> (\<Union>y\<in>set [0..<get_size qr]. ?line y)"
      unfolding UN_iff
      by (rule bexI[of _ y], rule bexI[of _ x]) (simp_all add: xy)
  qed
  ultimately show ?thesis by (simp only:)
qed

lemma uint_clip8: "0 \<le> v \<Longrightarrow> v \<le> 255 \<Longrightarrow> uint (clip8 v) = v"
  by (simp add: clip8_def uint_word_of_int)

lemma rgb_of_ink: "valid_rgb c \<Longrightarrow> rgb_of (ink c) = c"
  by (cases c) (simp add: valid_rgb_def ink_def rgb_of_def uint_clip8)

lemma source_over_opaque: "source_over 255 dst src = src"
  by (simp add: source_over_def)

lemma composite_over_opaque: "composite_over bg (r, g, b, 255) = rgb_of (r, g, b, 255)"
proof -
  obtain x y z where bg: "bg = (x, y, z)" by (cases bg) auto
  have u: "unat (255 :: 8 word) = 255" by simp
  show ?thesis
    unfolding bg composite_over_def rgb_of_def prod.case u source_over_opaque uint_nat ..
qed

lemma composite_over_ink: "composite_over bg (ink c) = rgb_of (ink c)"
  by (cases c) (simp add: ink_def composite_over_opaque)

lemma base_image_pix:
  "pix (base_image qr m b light dark opts) p =
     (if p \<in> dark_region qr m b then ink dark else ink light)"
  unfolding base_image_def Let_def draw_modules_pix by simp

lemma create_qr_image_no_logo:
  "create_qr_image lib qr m b light dark None opts =
     (Inr (flatten light (base_image qr m b light dark opts)), None)"
  unfolding create_qr_image_def render_canvas_def Let_def by simp

lemma no_logo_pix:
  assumes "valid_rgb light" and "valid_rgb dark"
    and "in_image (flatten light (base_image qr m b light dark opts)) p"
  shows "rgb_of (pix (flatten light (base_image qr m b light dark opts)) p) =
    (if p \<in> dark_region qr m b then dark else light)"
proof -
  let ?base = "base_image qr m b light dark opts"
  have in_base: "in_image ?base p" using assms(3) by (simp add: in_image_def)
  have "rgb_of (pix (flatten light ?base) p) = rgb_of (pix ?base p)"
  proof (cases "is_halo opts")
    case True
    then have "mode ?base = RGBA" by simp
    then have "rgb_of (pix (flatten light ?base) p) = composite_over light (pix ?base p)"
      using in_base by (rule flatten_pix)
    then show ?thesis by (simp add: base_image_pix composite_over_ink)
  next
    case False
    then show ?thesis by (simp add: flatten_def)
  qed
  then show ?thesis using assms(1,2) by (simp add: base_image_pix rgb_of_ink)
qed

lemma block_in_dark_region:
  assumes "x < get_size qr" "y < get_size qr" "get_module qr x y" "dx < m" "dy < m"
  shows "(int ((x + b) * m + dx), int ((y + b) * m + dy)) \<in> dark_region qr m b"
proof -
  have "(int ((x + b) * m + dx), int ((y + b) * m + dy)) \<in> block m b x y"
    using assms(4,5) by (simp add: block_def del: of_nat_add of_nat_mult)
  with assms(1-3) show ?thesis unfolding dark_region_def by blast
qed

lemma block_bound:
  fixes x s dx m b :: nat
  assumes "x < s" "dx < m"
  shows "(x + b) * m + dx < (s + b * 2) * m"
proof -
  have "(x + b) * m + dx < (x + b) * m + m" using assms by simp
  also have "\<dots> = (x + b + 1) * m" by simp
  also have "\<dots> \<le> (s + b * 2) * m" by (rule mult_le_mono1) (use assms in simp)
  finally show ?thesis .
qed

lemma block_in_image:
  assumes "x < get_size qr" "y < get_size qr" "dx < m" "dy < m"
  shows "in_image (flatten light (base_image qr m b light dark opts))
           (int ((x + b) * m + dx), int ((y + b) * m + dy))"
  using block_bound[OF assms(1,3), of b] block_bound[OF assms(2,4), of b]
  by (simp add: in_image_def in_bounds_def del: of_nat_add of_nat_mult)

lemma quiet_zone_not_dark:
  assumes "p \<in> quiet_zone qr m b"
  shows "p \<notin> dark_region qr m b"
proof
  assume "p \<in> dark_region qr m b"
  then obtain x y where xy: "x < get_size qr" "y < get_size qr" "p \<in> block m b x y"
    unfolding dark_region_def by blast
  have lo: "b * m \<le> (x + b) * m" "b * m \<le> (y + b) * m"
    by (simp_all add: add_mult_distrib)
  have hi: "(x + b) * m + m \<le> (get_size qr + b) * m" "(y + b) * m + m \<le> (get_size qr + b) * m"
  proof -
    have "(x + b + 1) * m \<le> (get_size qr + b) * m" by (rule mult_le_mono1) (use xy(1) in simp)
    then show "(x + b) * m + m \<le> (get_size qr + b) * m" by simp
    have "(y + b + 1) * m \<le> (get_size qr + b) * m" by (rule mult_le_mono1) (use xy(2) in simp)
    then show "(y + b) * m + m \<le> (get_size qr + b) * m" by simp
  qed
  from xy(3) have p: "int ((x + b) * m) \<le> fst p" "fst p < int ((x + b) * m + m)"
    "int ((y + b) * m) \<le> snd p" "snd p < int ((y + b) * m + m)"
    by (simp_all add: block_def)
  from lo hi have i: "int (b * m) \<le> int ((x + b) * m)" "int (b * m) \<le> int ((y + b) * m)"
    "int ((x + b) * m + m) \<le> int ((get_size qr + b) * m)"
    "int ((y + b) * m + m) \<le> int ((get_size qr + b) * m)"
    by (simp_all only: of_nat_le_iff)
  have "int (b * m) \<le> fst p" using i(1) p(1) by (rule order_trans)
  moreover have "fst p < int ((get_size qr + b) * m)" using p(2) i(3) by (rule order_less_le_trans)
  moreover have "int (b * m) \<le> snd p" using i(2) p(3) by (rule order_trans)
  moreover have "snd p < int ((get_size qr + b) * m)" using p(4) i(4) by (rule order_less_le_trans)
  ultimately have "p \<notin> quiet_zone qr m b" by (simp add: quiet_zone_def)
  with assms show False by simp
qed

section \<open>The thumbnail of the logo\<close>

lemma round_aspect_ge: "1 \<le> round_aspect number key"
  by (simp add: round_aspect_def)

lemma round_aspect_le:
  assumes "number \<le> real_of_int l" and "1 \<le> l"
  shows "round_aspect number key \<le> l"
proof -
  have c: "\<lceil>number\<rceil> \<le> l" using assms(1) by (simp add: ceiling_le_iff)
  have "\<lfloor>number\<rfloor> \<le> \<lceil>number\<rceil>" by (rule floor_le_ceiling)
  then have "\<lfloor>number\<rfloor> \<le> l" using c by (rule order_trans)
  with c show ?thesis using assms(2) by (simp add: round_aspect_def)
qed

lemma thumbnail_size_fits:
  "int w \<le> l \<Longrightarrow> int h \<le> l \<Longrightarrow> thumbnail_size (w, h) (l, l) = Inr None"
  by (simp add: thumbnail_size_def)

lemma thumbnail_size_shrinks:
  assumes "0 < h" and "1 \<le> l" and "l < int (max w h)"
  obtains x y where "thumbnail_size (w, h) (l, l) = Inr (Some (x, y))"
    and "1 \<le> x" "1 \<le> y" "max x y = l"
proof -
  let ?aspect = "real w / real h"
  from assms have nofit: "\<not> (int w \<le> l \<and> int h \<le> l)" by auto
  have l1: "real_of_int l / real_of_int l = 1" using assms(2) by simp
  show thesis
  proof (cases "?aspect \<le> 1")
    case True
    let ?x = "round_aspect (real_of_int l * ?aspect) (\<lambda>n. \<bar>?aspect - real_of_int n / real_of_int l\<bar>)"
    have eq: "thumbnail_size (w, h) (l, l) = Inr (Some (?x, l))"
      using nofit assms(1,2) True by (simp add: thumbnail_size_def Let_def l1)
    have "real_of_int l * ?aspect \<le> real_of_int l * 1"
      using True assms(2) by (intro mult_left_mono) simp_all
    then have "?x \<le> l" using assms(2) by (intro round_aspect_le) simp_all
    then have "max ?x l = l" by simp
    with eq round_aspect_ge[of "real_of_int l * ?aspect"] assms(2) show thesis
      by (intro that[of ?x l]) simp_all
  next
    case False
    let ?y = "round_aspect (real_of_int l / ?aspect)
        (\<lambda>n. if n = 0 then 0 else \<bar>?aspect - real_of_int l / real_of_int n\<bar>)"
    from False have a1: "1 < ?aspect" by simp
    have eq: "thumbnail_size (w, h) (l, l) = Inr (Some (l, ?y))"
      using nofit assms(1,2) False a1 by (simp add: thumbnail_size_def Let_def l1)
    have "real_of_int l / ?aspect \<le> real_of_int l / 1"
      using a1 assms(2) by (intro divide_left_mono) simp_all
    then have "?y \<le> l" using assms(2) by (intro round_aspect_le) simp_all
    then have "max l ?y = l" by simp
    with eq round_aspect_ge[of "real_of_int l / ?aspect"] assms(2) show thesis
      by (intro that[of l ?y]) simp_all
  qed
qed

lemma thumbnail_fits:
  assumes "int (max (width im) (height im)) \<le> l"
  shows "thumbnail lib im (l, l) = Inr im"
  using assms by (simp add: thumbnail_def thumbnail_size_fits)

lemma thumbnail_shrinks:
  assumes "0 < height im" and "1 \<le> l" and "l < int (max (width im) (height im))"
  obtains im' where "thumbnail lib im (l, l) = Inr im'"
    and "int (max (width im') (height im')) = l"
    and "1 \<le> width im'" "1 \<le> height im'" "mode im' = mode im"
proof -
  from assms obtain x y where sz: "thumbnail_size (width im, height im) (l, l) = Inr (Some (x, y))"
    and xy: "1 \<le> x" "1 \<le> y" "max x y = l"
    by (rule thumbnail_size_shrinks)
  from xy(3) assms(3) have ne: "\<not> (x = int (width im) \<and> y = int (height im))" by auto
  let ?im' = "im\<lparr>width := nat x, height := nat y, pix := lanczos lib im (nat x, nat y)\<rparr>"
  have "thumbnail lib im (l, l) =
      (if x = int (width im) \<and> y = int (height im) then Inr im
       else if x \<le> 0 \<or> y \<le> 0 then Inl ValueError else Inr ?im')"
    by (simp add: thumbnail_def sz)
  also have "\<dots> = (if x \<le> 0 \<or> y \<le> 0 then Inl ValueError else Inr ?im')"
    by (rule if_not_P[OF ne])
  also have "\<dots> = Inr ?im'" using xy by simp
  finally have "thumbnail lib im (l, l) = Inr ?im'" .
  moreover have "int (max (width ?im') (height ?im')) = l"
    using xy by simp
  ultimately show thesis using xy by (intro that[of ?im']) simp_all
qed



lemma render_canvas_thumbnail_ok:
  assumes "thumbnail lib logo0
             (logo_max_size ((get_size qr + b * 2) * m) opts,
              logo_max_size ((get_size qr + b * 2) * m) opts) = Inr logo"
  shows "snd (render_canvas lib qr m b light dark (Some logo0) opts) = Some logo"
    and "fst (render_canvas lib qr m b light dark (Some logo0) opts) =
      (case logo_background lib opts ((get_size qr + b * 2) * m) m light dark
              (width logo, height logo) (base_image qr m b light dark opts) of
         Inl e \<Rightarrow> Inl e
       | Inr img2 \<Rightarrow>
           Inr (logo_paste lib opts ((get_size qr + b * 2) * m) logo
                  (logo_border lib opts ((get_size qr + b * 2) * m) m dark
                     (width logo, height logo) img2)))"
  unfolding render_canvas_def Let_def using assms by (simp_all split: sum.split)

lemma draw_rings_lenient:
  assumes "\<not> strict_boxes lib"
  shows "\<exists>im'. draw_rings lib light dark g xs im = Inr im'"
  using assms by (induction xs arbitrary: im) (simp_all add: draw_ellipse_def)

lemma logo_background_returns:
  assumes "opt_background_style opts \<noteq> Some ''Radial Gradient'' \<or> \<not> strict_boxes lib"
  shows "\<exists>img2. logo_background lib opts isz m light dark lsz img = Inr img2"
proof (cases "opt_background_style opts = Some ''Radial Gradient''")
  case True
  with assms have "\<not> strict_boxes lib" by simp
  then obtain gi where "gradient_image lib light dark (grad_size lsz) = Inr gi"
    unfolding gradient_image_def using draw_rings_lenient by blast
  with True show ?thesis by (simp add: logo_background_def Let_def)
next
  case False
  then show ?thesis by (simp add: logo_background_def)
qed

lemma thumbnail_returns:
  assumes "0 < height im" and "1 \<le> l"
  shows "\<exists>im'. thumbnail lib im (l, l) = Inr im'"
proof (cases "int (max (width im) (height im)) \<le> l")
  case True
  then show ?thesis by (simp add: thumbnail_fits)
next
  case False
  then have "l < int (max (width im) (height im))" by simp
  with assms obtain im' where "thumbnail lib im (l, l) = Inr im'"
    by (rule thumbnail_shrinks)
  then show ?thesis by blast
qed

lemma create_qr_image_returns:
  assumes "0 < height logo0" and "1 \<le> logo_max_size ((get_size qr + b * 2) * m) opts"
    and "opt_background_style opts \<noteq> Some ''Radial Gradient'' \<or> \<not> strict_boxes lib"
  shows "\<exists>img. fst (create_qr_image lib qr m b light dark (Some logo0) opts) = Inr img"
proof -
  let ?l = "logo_max_size ((get_size qr + b * 2) * m) opts"
  from thumbnail_returns[OF assms(1,2)] obtain logo
    where t: "thumbnail lib logo0 (?l, ?l) = Inr logo" by blast
  from logo_background_returns[OF assms(3)] obtain img2
    where "logo_background lib opts ((get_size qr + b * 2) * m) m light dark
              (width logo, height logo) (base_image qr m b light dark opts) = Inr img2"
    by blast
  then have "\<exists>c. fst (render_canvas lib qr m b light dark (Some logo0) opts) = Inr c"
    by (simp add: render_canvas_thumbnail_ok(2)[OF t])
  then obtain c where "fst (render_canvas lib qr m b light dark (Some logo0) opts) = Inr c"
    by blast
  then have "fst (create_qr_image lib qr m b light dark (Some logo0) opts)
      = Inr (flatten light c)"
    by (cases "render_canvas lib qr m b light dark (Some logo0) opts")
      (simp add: create_qr_image_def)
  then show ?thesis by blast
qed


section \<open>The halo\<close>

lemma halo_alpha_cases:
  "halo_alpha isz lsz m p =
     (if center_distance isz p \<le> inner_radius lsz then 0
      else if center_distance isz p < outer_radius lsz m
      then uint8 (255 * (center_distance isz p - inner_radius lsz)
                    / (outer_radius lsz m - inner_radius lsz))
      else 255)"
proof -
  have o: "inner_radius lsz + real (m * 2) = outer_radius lsz m"
    by (simp add: outer_radius_def)
  have i: "real (max (fst lsz) (snd lsz)) / 2 = inner_radius lsz"
    by (simp add: inner_radius_def)
  have d: "sqrt ((real_of_int (fst p) - real isz / 2)\<^sup>2 + (real_of_int (snd p) - real isz / 2)\<^sup>2)
      = center_distance isz p"
    by (simp add: center_distance_def)
  show ?thesis unfolding halo_alpha_def Let_def i o d by auto
qed

lemma unat_uint8:
  assumes "0 \<le> v" and "v < 256"
  shows "unat (uint8 v) = nat \<lfloor>v\<rfloor>"
proof -
  have f: "0 \<le> \<lfloor>v\<rfloor>" "\<lfloor>v\<rfloor> < 256" using assms by (simp_all add: floor_less_iff)
  have "uint (uint8 v) = \<lfloor>v\<rfloor> mod 256"
    using assms by (simp add: uint8_def py_int_def uint_word_of_int)
  also have "\<dots> = \<lfloor>v\<rfloor>" using f by simp
  finally show ?thesis by (simp add: unat_eq_nat_uint)
qed

lemma fade_range:
  fixes d i o' :: real
  assumes "i < d" and "d < o'"
  shows "0 \<le> 255 * (d - i) / (o' - i)" and "255 * (d - i) / (o' - i) < 255"
proof -
  from assms have pos: "0 < o' - i" by simp
  show "0 \<le> 255 * (d - i) / (o' - i)" using assms pos by simp
  have "(d - i) / (o' - i) < 1" using assms pos by simp
  then have "255 * ((d - i) / (o' - i)) < 255 * 1" by (rule mult_strict_left_mono) simp
  then show "255 * (d - i) / (o' - i) < 255" by simp
qed

lemma halo_alpha_fade:
  assumes "inner_radius lsz < center_distance isz p"
    and "center_distance isz p < outer_radius lsz m"
  shows "unat (halo_alpha isz lsz m p) =
    nat \<lfloor>255 * (center_distance isz p - inner_radius lsz)
            / (outer_radius lsz m - inner_radius lsz)\<rfloor>"
    and "unat (halo_alpha isz lsz m p) < 255"
proof -
  define v where "v = 255 * (center_distance isz p - inner_radius lsz)
            / (outer_radius lsz m - inner_radius lsz)"
  have r: "0 \<le> v" "v < 255" unfolding v_def by (rule fade_range[OF assms])+
  have "halo_alpha isz lsz m p = uint8 v"
    unfolding v_def using assms by (simp add: halo_alpha_cases)
  moreover have "unat (uint8 v) = nat \<lfloor>v\<rfloor>" using r by (intro unat_uint8) simp_all
  ultimately have u: "unat (halo_alpha isz lsz m p) = nat \<lfloor>v\<rfloor>" by simp
  then show "unat (halo_alpha isz lsz m p) =
    nat \<lfloor>255 * (center_distance isz p - inner_radius lsz)
            / (outer_radius lsz m - inner_radius lsz)\<rfloor>"
    unfolding v_def .
  have "\<lfloor>v\<rfloor> < 255" using r(2) by linarith
  then have "nat \<lfloor>v\<rfloor> < 255" by linarith
  with u show "unat (halo_alpha isz lsz m p) < 255" by simp
qed

lemma halo_alpha_inside:
  "center_distance isz p \<le> inner_radius lsz \<Longrightarrow> halo_alpha isz lsz m p = 0"
  by (simp add: halo_alpha_cases)

lemma halo_alpha_outside:
  assumes "1 \<le> m" and "outer_radius lsz m \<le> center_distance isz p"
  shows "halo_alpha isz lsz m p = 255"
proof -
  have "inner_radius lsz < outer_radius lsz m" using assms(1) by (simp add: outer_radius_def)
  with assms(2) show ?thesis by (simp add: halo_alpha_cases)
qed

lemma halo_alpha_mono:
  assumes "center_distance isz p \<le> center_distance isz q"
  shows "halo_alpha isz lsz m p \<le> halo_alpha isz lsz m q"
proof -
  let ?i = "inner_radius lsz" and ?o = "outer_radius lsz m"
  let ?dp = "center_distance isz p" and ?dq = "center_distance isz q"
  consider "?dp \<le> ?i" | "?i < ?dp" "?dq < ?o" | "?i < ?dp" "?o \<le> ?dq" by linarith
  then show ?thesis
  proof cases
    case 1
    then show ?thesis by (simp add: halo_alpha_inside)
  next
    case 2
    with assms have p: "?i < ?dp" "?dp < ?o" and q: "?i < ?dq" "?dq < ?o" by simp_all
    from p q have pos: "0 < ?o - ?i" by simp
    have "255 * (?dp - ?i) / (?o - ?i) \<le> 255 * (?dq - ?i) / (?o - ?i)"
      using assms pos by (simp add: divide_le_cancel)
    then have "\<lfloor>255 * (?dp - ?i) / (?o - ?i)\<rfloor> \<le> \<lfloor>255 * (?dq - ?i) / (?o - ?i)\<rfloor>"
      by (rule floor_mono)
    then have "unat (halo_alpha isz lsz m p) \<le> unat (halo_alpha isz lsz m q)"
      by (simp add: halo_alpha_fade(1)[OF p] halo_alpha_fade(1)[OF q] nat_mono)
    then show ?thesis by (simp add: word_le_nat_alt)
  next
    case 3
    with assms have "\<not> ?dq \<le> ?i" "\<not> ?dq < ?o" by simp_all
    then have "halo_alpha isz lsz m q = 255" by (simp add: halo_alpha_cases)
    moreover have "unat (halo_alpha isz lsz m p) \<le> 255"
      using unat8_less[of "halo_alpha isz lsz m p"] by simp
    ultimately show ?thesis by (simp add: word_le_nat_alt)
  qed
qed

lemma logo_background_halo:
  assumes "opt_background_style opts = Some ''Gradient Halo''"
  shows "logo_background lib opts isz m light dark lsz img =
    Inr (putalpha img (halo_mask isz lsz m))"
  using assms by (simp add: logo_background_def)

lemma putalpha_pix:
  "alpha_of (pix (putalpha img g) p) = gval g p"
  "rgb_of (pix (putalpha img g) p) = rgb_of (pix img p)"
  by (cases "pix img p"; simp add: putalpha_def alpha_of_def rgb_of_def)+

lemma sqrt_25: "sqrt 25 = 5"
proof -
  have "sqrt 25 = sqrt (5\<^sup>2)" by simp
  also have "\<dots> = \<bar>5\<bar>" by (rule real_sqrt_abs)
  also have "\<dots> = 5" by simp
  finally show ?thesis .
qed

lemma sample_distance: "center_distance 58 (32, 33) = 5"
  by (simp add: center_distance_def sqrt_25)

lemma sample_radii: "inner_radius (8, 8) = 4" "outer_radius (8, 8) 2 = 8"
  by (simp_all add: inner_radius_def outer_radius_def)

section \<open>The radial gradient\<close>

lemma py_int_of_int [simp]: "py_int (real_of_int k) = k"
  by (simp add: py_int_def)














text \<open>
  With a library that rejects inverted boxes the radial gradient never completes: the loop
  runs \<open>i\<close> up to \<open>grad_size - 1\<close>, and from the middle on the box of ring \<open>i\<close> is
  inverted.
\<close>

lemma draw_rings_strict:
  assumes "strict_boxes lib" and "\<exists>i\<in>set rings. inverted (ring_box g i)"
  shows "draw_rings lib light dark g rings im = Inl ValueError"
  using assms(2)
proof (induction rings arbitrary: im)
  case Nil
  then show ?case by simp
next
  case (Cons i rest)
  show ?case
  proof (cases "inverted (ring_box g i)")
    case True
    then show ?thesis using assms(1) by (simp add: draw_ellipse_def)
  next
    case False
    with Cons.prems have "\<exists>j\<in>set rest. inverted (ring_box g j)" by auto
    then have "draw_rings lib light dark g rest im' = Inl ValueError" for im'
      by (rule Cons.IH)
    then show ?thesis using False by (simp add: draw_ellipse_def)
  qed
qed

lemma gradient_image_strict:
  assumes "strict_boxes lib" and "2 \<le> g"
  shows "gradient_image lib light dark g = Inl ValueError"
proof -
  have "g - 1 \<in> set [0..<g]" using assms(2) by simp
  moreover have "inverted (ring_box g (g - 1))"
    using assms(2) by (simp add: inverted_def ring_box_def)
  ultimately show ?thesis
    unfolding gradient_image_def using assms(1) by (intro draw_rings_strict) blast+
qed

section \<open>Shape masks\<close>



lemma gray_draw_simps [simp]:
  "gwidth (gray_draw cover v g) = gwidth g" "gheight (gray_draw cover v g) = gheight g"
  "gval (gray_draw cover v g) p =
     (if in_bounds (gwidth g) (gheight g) p \<and> cover p then v else gval g p)"
  by (simp_all add: gray_draw_def)

lemma gray_new_simps [simp]:
  "gwidth (gray_new sz v) = fst sz" "gheight (gray_new sz v) = snd sz" "gval (gray_new sz v) p = v"
  by (simp_all add: gray_new_def)

lemma logo_mask_size [simp]:
  "gwidth (logo_mask lib shape sz) = fst sz" "gheight (logo_mask lib shape sz) = snd sz"
  by (simp_all add: logo_mask_def Let_def)




section \<open>The order of the paste steps\<close>










section \<open>Example calls\<close>

lemma sample_logo_max: "logo_max_size ((get_size sample_qr + 4 * 2) * 2) (sample_opts style shape bd) = 14"
  by (simp add: logo_max_size_def sample_qr_def sample_opts_def py_int_def)

lemma sample_returns:
  assumes "style \<noteq> ''Radial Gradient''"
  shows "\<exists>img. fst (create_qr_image sample_pil sample_qr 2 4 light dark (Some sample_logo)
                      (sample_opts style shape bd)) = Inr img"
proof (rule create_qr_image_returns)
  show "0 < height sample_logo" by (simp add: sample_logo_def)
  show "1 \<le> logo_max_size ((get_size sample_qr + 4 * 2) * 2) (sample_opts style shape bd)"
    unfolding sample_logo_max by simp
  show "opt_background_style (sample_opts style shape bd) \<noteq> Some ''Radial Gradient''
      \<or> \<not> strict_boxes sample_pil"
    using assms by (simp add: sample_opts_def)
qed


section \<open>Claims about the rendered image\<close>

text \<open>
  Claim C1. Whenever \<open>create_qr_image\<close> returns an image, for a grid of size \<open>s\<close>, any
  module size \<open>m\<close> and any border \<open>b\<close>, with or without a logo and whatever the shape and
  the background style, the image is square with edge \<open>(s + 2 * b) * m\<close> pixels.
\<close>

theorem create_qr_image_size:
  assumes "fst (create_qr_image lib qr m b light dark logo opts) = Inr img"
  shows "width img = (get_size qr + 2 * b) * m \<and> height img = (get_size qr + 2 * b) * m"
proof -
  from assms obtain canvas
    where c: "fst (render_canvas lib qr m b light dark logo opts) = Inr canvas"
      and i: "img = flatten light canvas"
    by (rule create_qr_image_canvas)
  show ?thesis using render_canvas_fields(1,2)[OF c] by (simp add: i mult.commute)
qed

theorem create_qr_image_size_witness:
  "\<exists>img. fst (create_qr_image sample_pil sample_qr 2 4 (255, 255, 255) (0, 0, 0) (Some sample_logo)
               (sample_opts ''Gradient Halo'' ''Circle'' True)) = Inr img \<and>
     width img = 58 \<and> height img = 58"
proof -
  obtain img where i: "fst (create_qr_image sample_pil sample_qr 2 4 (255, 255, 255) (0, 0, 0)
      (Some sample_logo) (sample_opts ''Gradient Halo'' ''Circle'' True)) = Inr img"
    using sample_returns[where style = "''Gradient Halo''" and light = "(255, 255, 255)"
        and dark = "(0, 0, 0)" and shape = "''Circle''" and bd = True]
    by auto
  from create_qr_image_size[OF i] have "width img = 58 \<and> height img = 58"
    by (simp add: sample_qr_def)
  with i show ?thesis by blast
qed



text \<open>
  Claim C2. Without a logo the call returns an image in which every pixel of the block of
  a dark module \<open>(x, y)\<close>, whose top-left corner is
  \<open>((x + border) * moduleSize, (y + border) * moduleSize)\<close>, has the dark colour, every
  other pixel has the light colour, in particular every pixel of the quiet zone, and no
  third colour occurs. The colours are RGB triples with channels in 0..255.
\<close>

theorem no_logo_two_colours:
  assumes "valid_rgb light_color" and "valid_rgb dark_color"
  shows "\<exists>img. create_qr_image lib qr m b light_color dark_color None opts = (Inr img, None) \<and>
    (\<forall>x<get_size qr. \<forall>y<get_size qr. get_module qr x y \<longrightarrow>
       (\<forall>dx<m. \<forall>dy<m.
          in_image img (int ((x + b) * m + dx), int ((y + b) * m + dy)) \<and>
          rgb_of (pix img (int ((x + b) * m + dx), int ((y + b) * m + dy))) = dark_color)) \<and>
    (\<forall>p. in_image img p \<and> p \<notin> dark_region qr m b \<longrightarrow> rgb_of (pix img p) = light_color) \<and>
    (\<forall>p. in_image img p \<and> p \<in> quiet_zone qr m b \<longrightarrow> rgb_of (pix img p) = light_color) \<and>
    (\<forall>p. in_image img p \<longrightarrow>
       rgb_of (pix img p) = dark_color \<or> rgb_of (pix img p) = light_color)"
proof -
  let ?img = "flatten light_color (base_image qr m b light_color dark_color opts)"
  note px = no_logo_pix[OF assms, of qr m b opts]
  have 1: "create_qr_image lib qr m b light_color dark_color None opts = (Inr ?img, None)"
    by (rule create_qr_image_no_logo)
  have 2: "in_image ?img (int ((x + b) * m + dx), int ((y + b) * m + dy)) \<and>
      rgb_of (pix ?img (int ((x + b) * m + dx), int ((y + b) * m + dy))) = dark_color"
    if "x < get_size qr" "y < get_size qr" "get_module qr x y" "dx < m" "dy < m" for x y dx dy
    using px[OF block_in_image[OF that(1,2,4,5)]] block_in_image[OF that(1,2,4,5)]
      block_in_dark_region[OF that] by simp
  have 3: "rgb_of (pix ?img p) = light_color" if "in_image ?img p" "p \<notin> dark_region qr m b" for p
    using px[OF that(1)] that(2) by simp
  have 4: "rgb_of (pix ?img p) = light_color" if "in_image ?img p" "p \<in> quiet_zone qr m b" for p
    using 3[OF that(1)] quiet_zone_not_dark[OF that(2)] by simp
  have 5: "rgb_of (pix ?img p) = dark_color \<or> rgb_of (pix ?img p) = light_color"
    if "in_image ?img p" for p
    using px[OF that] by simp
  have c2: "\<forall>x<get_size qr. \<forall>y<get_size qr. get_module qr x y \<longrightarrow>
       (\<forall>dx<m. \<forall>dy<m.
          in_image ?img (int ((x + b) * m + dx), int ((y + b) * m + dy)) \<and>
          rgb_of (pix ?img (int ((x + b) * m + dx), int ((y + b) * m + dy))) = dark_color)"
    using 2 by blast
  have c3: "\<forall>p. in_image ?img p \<and> p \<notin> dark_region qr m b \<longrightarrow> rgb_of (pix ?img p) = light_color"
    using 3 by blast
  have c4: "\<forall>p. in_image ?img p \<and> p \<in> quiet_zone qr m b \<longrightarrow> rgb_of (pix ?img p) = light_color"
    using 4 by blast
  have c5: "\<forall>p. in_image ?img p \<longrightarrow>
       rgb_of (pix ?img p) = dark_color \<or> rgb_of (pix ?img p) = light_color"
    using 5 by blast
  show ?thesis
    using 1 c2 c3 c4 c5 by (intro exI[of _ ?img] conjI)
qed

theorem no_logo_two_colours_witness:
  "valid_rgb (255, 255, 255) \<and> valid_rgb (0, 0, 0) \<and>
   (\<exists>img. create_qr_image sample_pil sample_qr 2 4 (255, 255, 255) (0, 0, 0) None
             (sample_opts ''Gradient Halo'' ''Square'' False) = (Inr img, None) \<and>
      rgb_of (pix img (8, 9)) = (0, 0, 0) \<and>
      rgb_of (pix img (3, 20)) = (255, 255, 255))"
proof -
  let ?opts = "sample_opts ''Gradient Halo'' ''Square'' False"
  have v: "valid_rgb (255, 255, 255)" "valid_rgb (0, 0, 0)" by (simp_all add: valid_rgb_def)
  from no_logo_two_colours[OF v, of sample_pil sample_qr 2 4 ?opts]
  obtain img where c: "create_qr_image sample_pil sample_qr 2 4 (255, 255, 255) (0, 0, 0) None ?opts
        = (Inr img, None)"
    and d: "\<forall>x<get_size sample_qr. \<forall>y<get_size sample_qr. get_module sample_qr x y \<longrightarrow>
       (\<forall>dx<2. \<forall>dy<2.
          in_image img (int ((x + 4) * 2 + dx), int ((y + 4) * 2 + dy)) \<and>
          rgb_of (pix img (int ((x + 4) * 2 + dx), int ((y + 4) * 2 + dy))) = (0, 0, 0))"
    and q: "\<forall>p. in_image img p \<and> p \<in> quiet_zone sample_qr 2 4 \<longrightarrow> rgb_of (pix img p) = (255, 255, 255)"
    by blast
  have "(0::nat) < get_size sample_qr" "get_module sample_qr 0 0" "(0::nat) < 2" "(1::nat) < 2"
    by (simp_all add: sample_qr_def)
  with d have "rgb_of (pix img (int ((0 + 4) * 2 + 0), int ((0 + 4) * 2 + 1))) = (0, 0, 0)"
    by blast
  then have dark: "rgb_of (pix img (8, 9)) = (0, 0, 0)" by simp
  from c have "img = flatten (255, 255, 255) (base_image sample_qr 2 4 (255, 255, 255) (0, 0, 0) ?opts)"
    by (simp add: create_qr_image_no_logo)
  then have "in_image img (3, 20)"
    by (simp add: in_image_def in_bounds_def sample_qr_def)
  moreover have "(3, 20) \<in> quiet_zone sample_qr 2 4" by (simp add: quiet_zone_def)
  ultimately have "rgb_of (pix img (3, 20)) = (255, 255, 255)" using q by blast
  with v c dark show ?thesis by blast
qed




text \<open>
  Claim C3. As stated the claim fails in the fade zone: the alpha mask is an array of
  unsigned 8-bit integers, so the value written is the integer part of
  \<open>255 * (d - innerRadius) / (outerRadius - innerRadius)\<close>, not that number. For a 58
  pixel image, an 8 by 8 logo and module size 2, the pixel \<open>(32, 33)\<close> is at distance 5
  from the centre, between the radii 4 and 8; the formula gives 63.75, the code writes 63.
\<close>

theorem halo_alpha_truncates_counterexample:
  "inner_radius (8, 8) < center_distance 58 (32, 33) \<and>
   center_distance 58 (32, 33) < outer_radius (8, 8) 2 \<and>
   unat (halo_alpha 58 (8, 8) 2 (32, 33)) = 63 \<and>
   255 * (center_distance 58 (32, 33) - inner_radius (8, 8))
     / (outer_radius (8, 8) 2 - inner_radius (8, 8)) = 255 / 4"
proof -
  have "unat (halo_alpha 58 (8, 8) 2 (32, 33)) = nat \<lfloor>255 * (5 - 4) / (8 - 4 :: real)\<rfloor>"
    using halo_alpha_fade(1)[of "(8, 8)" 58 "(32, 33)" 2]
    by (simp add: sample_distance sample_radii)
  then have "unat (halo_alpha 58 (8, 8) 2 (32, 33)) = 63" by simp
  then show ?thesis by (simp add: sample_distance sample_radii)
qed

text \<open>
  Claim C3, amended. In the halo style, with \<open>innerRadius = max(logoWidth, logoHeight) / 2\<close>,
  \<open>outerRadius = innerRadius + 2 * moduleSize\<close> and module size at least 1, the alpha
  value written for every pixel of the whole image at distance \<open>d\<close> from the image centre
  is 0 when \<open>d \<le> innerRadius\<close>, 255 when \<open>d \<ge> outerRadius\<close>, and the integer part of
  \<open>255 * (d - innerRadius) / (outerRadius - innerRadius)\<close> in between; it is monotonic
  non-decreasing in \<open>d\<close>. Distances are exact real numbers here.
\<close>

theorem halo_alpha_written:
  assumes "opt_background_style opts = Some ''Gradient Halo''" and "1 \<le> m"
  shows "\<exists>img2. logo_background lib opts isz m light dark lsz img = Inr img2 \<and>
    (\<forall>p. (center_distance isz p \<le> inner_radius lsz \<longrightarrow> alpha_of (pix img2 p) = 0) \<and>
         (outer_radius lsz m \<le> center_distance isz p \<longrightarrow> alpha_of (pix img2 p) = 255) \<and>
         (inner_radius lsz < center_distance isz p \<and> center_distance isz p < outer_radius lsz m \<longrightarrow>
            unat (alpha_of (pix img2 p)) =
              nat \<lfloor>255 * (center_distance isz p - inner_radius lsz)
                      / (outer_radius lsz m - inner_radius lsz)\<rfloor>)) \<and>
    (\<forall>p q. center_distance isz p \<le> center_distance isz q \<longrightarrow>
       alpha_of (pix img2 p) \<le> alpha_of (pix img2 q))"
proof -
  let ?img2 = "putalpha img (halo_mask isz lsz m)"
  have a: "alpha_of (pix ?img2 p) = halo_alpha isz lsz m p" for p
    by (simp add: putalpha_pix halo_mask_def)
  have 1: "logo_background lib opts isz m light dark lsz img = Inr ?img2"
    using assms(1) by (rule logo_background_halo)
  have 2: "\<forall>p. (center_distance isz p \<le> inner_radius lsz \<longrightarrow> alpha_of (pix ?img2 p) = 0) \<and>
         (outer_radius lsz m \<le> center_distance isz p \<longrightarrow> alpha_of (pix ?img2 p) = 255) \<and>
         (inner_radius lsz < center_distance isz p \<and> center_distance isz p < outer_radius lsz m \<longrightarrow>
            unat (alpha_of (pix ?img2 p)) =
              nat \<lfloor>255 * (center_distance isz p - inner_radius lsz)
                      / (outer_radius lsz m - inner_radius lsz)\<rfloor>)"
    unfolding a
    using halo_alpha_inside halo_alpha_outside[OF assms(2)] halo_alpha_fade(1) by blast
  have 3: "\<forall>p q. center_distance isz p \<le> center_distance isz q \<longrightarrow>
       alpha_of (pix ?img2 p) \<le> alpha_of (pix ?img2 q)"
    unfolding a using halo_alpha_mono by blast
  from 1 2 3 show ?thesis by (intro exI[of _ ?img2] conjI)
qed

theorem halo_alpha_written_witness:
  "opt_background_style (sample_opts ''Gradient Halo'' ''Square'' False) = Some ''Gradient Halo'' \<and>
   (\<exists>img2. logo_background sample_pil (sample_opts ''Gradient Halo'' ''Square'' False) 58 2
              (255, 255, 255) (0, 0, 0) (8, 8) (image_new RGBA (58, 58) (ink (255, 255, 255)))
            = Inr img2 \<and>
      alpha_of (pix img2 (29, 29)) = 0 \<and>
      alpha_of (pix img2 (0, 0)) = 255 \<and>
      unat (alpha_of (pix img2 (32, 33))) = 63)"
proof -
  let ?opts = "sample_opts ''Gradient Halo'' ''Square'' False"
  let ?img = "image_new RGBA (58, 58) (ink (255, 255, 255))"
  have h: "opt_background_style ?opts = Some ''Gradient Halo''" by (simp add: sample_opts_def)
  have m: "(1::nat) \<le> 2" by simp
  from halo_alpha_written[OF h m, of sample_pil 58 "(255, 255, 255)" "(0, 0, 0)" "(8, 8)" ?img]
  obtain img2 where r: "logo_background sample_pil ?opts 58 2 (255, 255, 255) (0, 0, 0) (8, 8) ?img
        = Inr img2"
    and i: "\<And>p. center_distance 58 p \<le> inner_radius (8, 8) \<Longrightarrow> alpha_of (pix img2 p) = 0"
    and o: "\<And>p. outer_radius (8, 8) 2 \<le> center_distance 58 p \<Longrightarrow> alpha_of (pix img2 p) = 255"
    and f: "\<And>p. inner_radius (8, 8) < center_distance 58 p \<and> center_distance 58 p < outer_radius (8, 8) 2
        \<Longrightarrow> unat (alpha_of (pix img2 p)) =
              nat \<lfloor>255 * (center_distance 58 p - inner_radius (8, 8))
                      / (outer_radius (8, 8) 2 - inner_radius (8, 8))\<rfloor>"
    by blast
  have "center_distance 58 (29, 29) = 0" by (simp add: center_distance_def)
  then have a: "alpha_of (pix img2 (29, 29)) = 0" by (intro i) (simp add: sample_radii)
  have "8 \<le> sqrt ((29::real)\<^sup>2 + 29\<^sup>2)" by (rule real_le_rsqrt) simp
  then have "outer_radius (8, 8) 2 \<le> center_distance 58 (0, 0)"
    by (simp add: center_distance_def sample_radii)
  then have b: "alpha_of (pix img2 (0, 0)) = 255" by (rule o)
  have "unat (alpha_of (pix img2 (32, 33))) =
      nat \<lfloor>255 * (center_distance 58 (32, 33) - inner_radius (8, 8))
                      / (outer_radius (8, 8) 2 - inner_radius (8, 8))\<rfloor>"
    by (rule f) (simp add: sample_distance sample_radii)
  then have c: "unat (alpha_of (pix img2 (32, 33))) = 63"
    by (simp add: sample_distance sample_radii)
  from h r a b c show ?thesis by blast
qed









section \<open>Claims about colours and the border frame\<close>




section \<open>The border frame\<close>

lemma border_width_floor: "border_width m = max 1 \<lfloor>0.75 * real m\<rfloor>"
  by (simp add: border_width_def py_int_def mult.commute)

lemma border_width_pos: "1 \<le> border_width m"
  by (simp add: border_width_def)

lemma border_mask_eq_logo_mask: "border_mask lib shape sz = logo_mask lib shape sz"
  by (simp add: border_mask_def logo_mask_def corner_radius_def Let_def)

text \<open>
  Claim C6. As stated the claim fails: the width is computed with \<open>int(...)\<close>, which
  truncates, not with \<open>round\<close>. For module size 5 the code takes
  \<open>int(3.75) = 3\<close>, while \<open>round(3.75) = 4\<close>.
\<close>

theorem border_width_round_counterexample:
  "border_width 5 = 3 \<and> max 1 (round (0.75 * real (5::nat))) = (4::int)"
  by (simp add: border_width_def py_int_def round_def)

text \<open>
  Claim C6, amended. For every module size \<open>m\<close> the border width is
  \<open>max(1, floor(0.75 * m))\<close>; the frame measures \<open>logoWidth + 2 * borderWidth\<close> by
  \<open>logoHeight + 2 * borderWidth\<close>; its mask is generated for that size exactly as the
  logo's mask is generated for the logo's size; and when the border is requested the frame,
  filled with the dark colour, is pasted through that mask.
\<close>

theorem border_frame_geometry:
  "border_width m = max 1 \<lfloor>0.75 * real m\<rfloor> \<and>
   border_frame_size m (w, h) = (w + 2 * nat (border_width m), h + 2 * nat (border_width m)) \<and>
   border_mask lib shape (border_frame_size m (w, h)) =
     logo_mask lib shape (border_frame_size m (w, h)) \<and>
   (has_border opts \<longrightarrow>
      logo_border lib opts image_size m dark_color (w, h) img =
        paste img
          (image_new (if mode img = RGBA then RGBA else RGB) (border_frame_size m (w, h))
             (ink dark_color))
          (fst (logo_pos image_size (w, h)) - border_width m,
           snd (logo_pos image_size (w, h)) - border_width m)
          (Some (logo_mask lib (logo_shape_of opts) (border_frame_size m (w, h)))))"
proof (intro conjI impI)
  show "border_width m = max 1 \<lfloor>0.75 * real m\<rfloor>"
    by (rule border_width_floor)
  show "border_frame_size m (w, h) =
      (w + 2 * nat (border_width m), h + 2 * nat (border_width m))"
    using border_width_pos[of m] by (simp add: border_frame_size_def nat_add_distrib nat_mult_distrib)
  show "border_mask lib shape (border_frame_size m (w, h)) =
      logo_mask lib shape (border_frame_size m (w, h))"
    by (rule border_mask_eq_logo_mask)
next
  assume "has_border opts"
  then show "logo_border lib opts image_size m dark_color (w, h) img =
        paste img
          (image_new (if mode img = RGBA then RGBA else RGB) (border_frame_size m (w, h))
             (ink dark_color))
          (fst (logo_pos image_size (w, h)) - border_width m,
           snd (logo_pos image_size (w, h)) - border_width m)
          (Some (logo_mask lib (logo_shape_of opts) (border_frame_size m (w, h))))"
    by (simp add: logo_border_def Let_def border_mask_eq_logo_mask)
qed

theorem border_frame_geometry_witness:
  "has_border (sample_opts ''Solid'' ''Circle'' True) \<and>
   border_width 5 = 3 \<and> border_frame_size 5 (14, 7) = (20, 13) \<and>
   border_mask sample_pil ''Circle'' (20, 13) = logo_mask sample_pil ''Circle'' (20, 13) \<and>
   logo_border sample_pil (sample_opts ''Solid'' ''Circle'' True) 58 5 (0, 0, 0) (14, 7)
       (image_new RGB (58, 58) (ink (255, 255, 255))) =
     paste (image_new RGB (58, 58) (ink (255, 255, 255)))
       (image_new RGB (20, 13) (ink (0, 0, 0))) (19, 22)
       (Some (logo_mask sample_pil ''Circle'' (20, 13)))"
proof -
  let ?opts = "sample_opts ''Solid'' ''Circle'' True"
  let ?img = "image_new RGB (58, 58) (ink (255, 255, 255))"
  have hb: "has_border ?opts" by (simp add: has_border_def sample_opts_def)
  have sh: "logo_shape_of ?opts = ''Circle''" by (simp add: logo_shape_of_def sample_opts_def)
  have pos: "logo_pos 58 (14, 7) = (22, 25)" by (simp add: logo_pos_def)
  note g = border_frame_geometry[of 5 14 7 sample_pil "''Circle''" ?opts 58 "(0, 0, 0)" ?img]
  from g have w: "border_width 5 = 3" by simp
  from g have f: "border_frame_size 5 (14, 7) = (20, 13)" by (simp add: w)
  from g have m: "border_mask sample_pil ''Circle'' (20, 13) = logo_mask sample_pil ''Circle'' (20, 13)"
    by (simp add: f)
  from g hb have "logo_border sample_pil ?opts 58 5 (0, 0, 0) (14, 7) ?img =
     paste ?img (image_new RGB (20, 13) (ink (0, 0, 0))) (19, 22)
       (Some (logo_mask sample_pil ''Circle'' (20, 13)))"
    by (simp add: w f sh pos)
  with hb w f m show ?thesis by blast
qed

end
